theory Spec2Isabelle
  imports Main "HOL-Library.Sublist"
begin

section \<open>Data model\<close>

text \<open>
  The orchestration core of the repository (package \<open>agentic\<close>) works on a session state
  holding the message log and the dialog stack. The message and tool-call types come from
  the language-model library and are not declared in the sources. A message is one of the
  library's three classes: a user message, with a content; an assistant message, with a
  content and an ordered sequence of tool calls; a tool reply, with a content and the id
  of the call it answers. Only an assistant message has the attribute \<open>tool_calls\<close>. A
  content is a text or a structured sequence of blocks; the code reads a block with
  \<open>.get("text")\<close>, so a block is a dictionary, kept here as an association list.
\<close>

datatype error = IndexError | ValueError string | AttributeError

datatype exn = Exn string

record tool_call =
  tc_id :: string
  tc_name :: string
  tc_args :: "(string \<times> string) list"

datatype role = User | Assistant | Tool

datatype content = Text string | Blocks "(string \<times> string) list list"

datatype message =
    HumanMessage content
  | AIMessage content "tool_call list"
  | ToolMessage content string

definition role :: "message \<Rightarrow> role" where
  "role msg =
     (case msg of HumanMessage c \<Rightarrow> User | AIMessage c tcs \<Rightarrow> Assistant | ToolMessage c tid \<Rightarrow> Tool)"

definition content :: "message \<Rightarrow> content" where
  "content msg =
     (case msg of HumanMessage c \<Rightarrow> c | AIMessage c tcs \<Rightarrow> c | ToolMessage c tid \<Rightarrow> c)"

fun tool_call_id :: "message \<Rightarrow> string option" where
  "tool_call_id (ToolMessage c tid) = Some tid"
| "tool_call_id (HumanMessage c) = None"
| "tool_call_id (AIMessage c tcs) = None"

text \<open>
  The plain read \<open>msg.tool_calls\<close>: it raises \<open>AttributeError\<close> on a message that is no
  assistant message.
\<close>

fun attr_tool_calls :: "message \<Rightarrow> error + tool_call list" where
  "attr_tool_calls (AIMessage c tcs) = Inr tcs"
| "attr_tool_calls (HumanMessage c) = Inl AttributeError"
| "attr_tool_calls (ToolMessage c tid) = Inl AttributeError"

text \<open>
  The tool calls a message carries, read under the guard \<open>hasattr(msg, "tool_calls")\<close>:
  those of an assistant message, none for a message without the attribute.
\<close>

fun tool_calls :: "message \<Rightarrow> tool_call list" where
  "tool_calls (AIMessage c tcs) = tcs"
| "tool_calls (HumanMessage c) = []"
| "tool_calls (ToolMessage c tid) = []"

text \<open>\<open>GraphState\<close> of \<open>states.py\<close>: the two channels of a session.\<close>

record graph_state =
  messages :: "message list"
  dialog_state :: "string list"

text \<open>
  The input of a fallback: the state together with the exception caught, stored under
  the key \<open>error\<close> (absent when nothing was caught).
\<close>

record fallback_state = graph_state +
  error :: "exn option"

text \<open>
  What a node returns: the dictionary of channel updates. The key \<open>dialog_state\<close> may be
  absent (\<open>None\<close>); an absent \<open>messages\<close> key is the empty list of new messages.
\<close>

record delta =
  d_messages :: "message list"
  d_dialog_state :: "string option"

text \<open>What a model invocation answers: the content and the tool calls of an AI message.\<close>

record reply =
  reply_content :: content
  reply_tool_calls :: "tool_call list"

definition ai_message :: "reply \<Rightarrow> message" where
  "ai_message r = AIMessage (reply_content r) (reply_tool_calls r)"

definition tool_message :: "string \<Rightarrow> string \<Rightarrow> message" where
  "tool_message c tid = ToolMessage (Text c) tid"

definition human_message :: "string \<Rightarrow> message" where
  "human_message c = HumanMessage (Text c)"

definition END :: string where
  "END = ''__end__''"

definition START :: string where
  "START = ''__start__''"


section \<open>The dialog-stack reducer (\<open>utils.py\<close>)\<close>

text \<open>
  \<open>update_dialog_stack(left, right)\<close>: \<open>right\<close> is \<open>None\<close>, the sentinel \<open>"pop"\<close> or a value
  to push. The slice \<open>left[:-1]\<close> drops the last element and is the empty list on the
  empty list.
\<close>

definition update_dialog_stack :: "string list \<Rightarrow> string option \<Rightarrow> string list" where
  "update_dialog_stack left right =
     (case right of
        None \<Rightarrow> left
      | Some r \<Rightarrow> if r = ''pop'' then butlast left else left @ [r])"

text \<open>
  Modelled from the spec: the reducer \<open>add_messages\<close> of the graph library is not under the
  sources; section 3 gives its merge rule, "concatenate, preserving arrival order".
\<close>

definition add_messages :: "message list \<Rightarrow> message list \<Rightarrow> message list" where
  "add_messages left right = left @ right"

text \<open>
  Merging a node's result into the state, channel by channel, with the reducers that
  \<open>GraphState\<close> annotates: \<open>add_messages\<close> for \<open>messages\<close>, \<open>update_dialog_stack\<close> for
  \<open>dialog_state\<close>.
\<close>

definition apply_delta :: "graph_state \<Rightarrow> delta \<Rightarrow> graph_state" where
  "apply_delta st d =
     \<lparr>messages = add_messages (messages st) (d_messages d),
      dialog_state = update_dialog_stack (dialog_state st) (d_dialog_state d)\<rparr>"

definition run_node :: "(graph_state \<Rightarrow> error + delta) \<Rightarrow> graph_state \<Rightarrow> error + graph_state" where
  "run_node node st = (case node st of Inl e \<Rightarrow> Inl e | Inr d \<Rightarrow> Inr (apply_delta st d))"

text \<open>A run of the reducer over a sequence of updates, starting from a stack.\<close>

definition apply_updates :: "string list \<Rightarrow> string option list \<Rightarrow> string list" where
  "apply_updates s ops = foldl update_dialog_stack s ops"

text \<open>
  Counting the operations of a sequence: a push is a value other than the sentinel, a
  pop is the sentinel, an absent value is neither.
\<close>

definition pushes :: "string option list \<Rightarrow> nat" where
  "pushes ops = length (filter (\<lambda>r. r \<noteq> None \<and> r \<noteq> Some ''pop'') ops)"

definition pops :: "string option list \<Rightarrow> nat" where
  "pops ops = length (filter (\<lambda>r. r = Some ''pop'') ops)"

text \<open>The values a sequence pushes, in the order of the pushes.\<close>

definition pushed :: "string option list \<Rightarrow> string list" where
  "pushed ops =
     concat (map (\<lambda>r. case r of None \<Rightarrow> [] | Some x \<Rightarrow> if x = ''pop'' then [] else [x]) ops)"

text \<open>
  \<open>level d ops\<close> follows the height of a stack of height \<open>d\<close> through \<open>ops\<close> and is
  \<open>None\<close> as soon as a pop meets height 0.
\<close>

fun level :: "nat \<Rightarrow> string option list \<Rightarrow> nat option" where
  "level d [] = Some d"
| "level d (None # ops) = level d ops"
| "level d (Some r # ops) =
     (if r = ''pop'' then (if d = 0 then None else level (d - 1) ops)
      else level (Suc d) ops)"


section \<open>The tool-error fallback (\<open>utils.py\<close>)\<close>

text \<open>\<open>repr(error)\<close>, where \<open>error\<close> is \<open>state.get("error")\<close>.\<close>

fun py_repr :: "exn option \<Rightarrow> string" where
  "py_repr None = ''None''"
| "py_repr (Some (Exn r)) = r"

definition error_text :: "exn option \<Rightarrow> string" where
  "error_text e = ''Error: '' @ py_repr e @ [CHR 0x0A] @ '' please fix your mistakes.''"

text \<open>
  \<open>handle_tool_error(state)\<close>. The read \<open>state["messages"][-1]\<close> raises on an empty log,
  and \<open>.tool_calls\<close> raises on a last message that is no assistant message.
\<close>

definition handle_tool_error :: "fallback_state \<Rightarrow> error + delta" where
  "handle_tool_error state =
     (if messages state = [] then Inl IndexError
      else
        case attr_tool_calls (last (messages state)) of
          Inl e \<Rightarrow> Inl e
        | Inr tcs \<Rightarrow>
            Inr \<lparr>d_messages = map (\<lambda>tc. tool_message (error_text (error state)) (tc_id tc)) tcs,
                 d_dialog_state = None\<rparr>)"

text \<open>
  Modelled from the spec: \<open>with_fallbacks\<close> of the runnable library is not under the
  sources. Section 4.4: when the wrapped node raises, the failure is not propagated; the
  fallback runs on the same input, with the exception stored under \<open>exception_key\<close>.
  When the fallback raises too, the library raises the first exception, the one of the
  wrapped node.
\<close>

definition with_fallbacks ::
  "(graph_state \<Rightarrow> exn + delta) \<Rightarrow> (fallback_state \<Rightarrow> error + delta) \<Rightarrow> graph_state \<Rightarrow> exn + delta"
where
  "with_fallbacks primary fallback st =
     (case primary st of
        Inr d \<Rightarrow> Inr d
      | Inl e \<Rightarrow>
          (case fallback \<lparr>messages = messages st, dialog_state = dialog_state st, error = Some e\<rparr> of
             Inr d \<Rightarrow> Inr d
           | Inl e' \<Rightarrow> Inl e))"

text \<open>
  \<open>create_tool_node_with_fallback(tools)\<close>; the tool node built from \<open>tools\<close> is the
  parameter \<open>tool_node\<close>, which returns the tool messages or raises.
\<close>

definition create_tool_node_with_fallback ::
  "(graph_state \<Rightarrow> exn + delta) \<Rightarrow> graph_state \<Rightarrow> exn + delta"
where
  "create_tool_node_with_fallback tool_node = with_fallbacks tool_node handle_tool_error"


section \<open>The exit handler and session-start routing (\<open>utils.py\<close>)\<close>

definition resume_text :: string where
  "resume_text =
     ''Resuming dialog with the primary assistant. Please reflect on the past conversation and assist the user as needed.''"

text \<open>
  \<open>pop_dialog_state(state)\<close>. The test \<open>state["messages"][-1].tool_calls\<close> raises on an
  empty log and on a last message that is no assistant message.
\<close>

definition pop_dialog_state :: "graph_state \<Rightarrow> error + delta" where
  "pop_dialog_state state =
     (if messages state = [] then Inl IndexError
      else
        case attr_tool_calls (last (messages state)) of
          Inl e \<Rightarrow> Inl e
        | Inr tcs \<Rightarrow>
            let msgs = (if tcs \<noteq> [] then [tool_message resume_text (tc_id (hd tcs))] else [])
            in Inr \<lparr>d_messages = msgs, d_dialog_state = Some ''pop''\<rparr>)"

definition route_to_workflow :: "graph_state \<Rightarrow> string" where
  "route_to_workflow state =
     (if dialog_state state = [] then ''primary_assistant'' else last (dialog_state state))"


section \<open>The agent invoker (\<open>assistants.py\<close>)\<close>

text \<open>
  The test of \<open>Assistant.__call__\<close> on a result:
  \<open>not result.tool_calls and (not result.content or isinstance(result.content, list) and
  not result.content[0].get("text"))\<close>. An empty text and an empty sequence are falsy, so
  \<open>content[0]\<close> is only read on a non-empty sequence; \<open>get\<close> gives \<open>None\<close> on a
  missing key, and \<open>None\<close> and the empty text are falsy.
\<close>

fun empty_content :: "content \<Rightarrow> bool" where
  "empty_content (Text s) = (s = [])"
| "empty_content (Blocks []) = True"
| "empty_content (Blocks (b # bs)) =
     (case map_of b ''text'' of None \<Rightarrow> True | Some t \<Rightarrow> t = [])"

definition retry_needed :: "reply \<Rightarrow> bool" where
  "retry_needed result = (reply_tool_calls result = [] \<and> empty_content (reply_content result))"

text \<open>The directive \<open>("user", "Respond with a real output.")\<close>.\<close>

definition directive :: message where
  "directive = human_message ''Respond with a real output.''"

text \<open>
  The model behind \<open>self.runnable\<close> is external and may answer differently at each call:
  it is a function of its own state \<open>'m\<close> and of the state it is invoked on, returning
  its answer and its next state.
\<close>

type_synonym 'm runnable = "'m \<Rightarrow> graph_state \<Rightarrow> reply \<times> 'm"

text \<open>
  The loop \<open>while True\<close> of \<open>Assistant.__call__\<close>. It has no other exit than \<open>break\<close>;
  \<open>None\<close> is the run that never leaves it.
\<close>

partial_function (option) invoke_loop :: "'m runnable \<Rightarrow> 'm \<Rightarrow> graph_state \<Rightarrow> (reply \<times> 'm) option" where
  "invoke_loop run m state =
     (case run m state of
        (result, m') \<Rightarrow>
          if retry_needed result
          then invoke_loop run m' (state\<lparr>messages := messages state @ [directive]\<rparr>)
          else Some (result, m'))"

text \<open>\<open>Assistant.__call__\<close>: the loop, then \<open>return {"messages": result}\<close>.\<close>

definition assistant_call :: "'m runnable \<Rightarrow> 'm \<Rightarrow> graph_state \<Rightarrow> (delta \<times> 'm) option" where
  "assistant_call run m state =
     (case invoke_loop run m state of
        None \<Rightarrow> None
      | Some (result, m') \<Rightarrow> Some (\<lparr>d_messages = [ai_message result], d_dialog_state = None\<rparr>, m'))"

text \<open>
  The model state and the working state before the \<open>n\<close>-th invocation (counted from 0) of
  a run that has retried \<open>n\<close> times, and the answer of that invocation.
\<close>

primrec nth_call :: "'m runnable \<Rightarrow> 'm \<Rightarrow> graph_state \<Rightarrow> nat \<Rightarrow> 'm \<times> graph_state" where
  "nth_call run m state 0 = (m, state)"
| "nth_call run m state (Suc n) =
     (case nth_call run m state n of
        (m', state') \<Rightarrow> (snd (run m' state'), state'\<lparr>messages := messages state' @ [directive]\<rparr>))"

definition nth_reply :: "'m runnable \<Rightarrow> 'm \<Rightarrow> graph_state \<Rightarrow> nat \<Rightarrow> reply" where
  "nth_reply run m state n = (case nth_call run m state n of (m', state') \<Rightarrow> fst (run m' state'))"


text \<open>
  A scripted model whose state counts the invocations it has received: empty content on
  the first two, a valid answer from the third on. And a model that never complies.
\<close>

definition empty_reply :: reply where
  "empty_reply = \<lparr>reply_content = Text [], reply_tool_calls = []\<rparr>"

definition valid_reply :: reply where
  "valid_reply = \<lparr>reply_content = Text ''Done.'', reply_tool_calls = []\<rparr>"

definition scripted_model :: "nat runnable" where
  "scripted_model n state = (if n < 2 then empty_reply else valid_reply, Suc n)"

definition silent_model :: "nat runnable" where
  "silent_model n state = (empty_reply, Suc n)"


section \<open>The routers (\<open>assistants.py\<close>)\<close>

text \<open>
  Modelled from the spec: \<open>tools_condition\<close> of the graph library is not under the
  sources. Section 4.2: a last message without tool calls ends the path (\<open>END\<close>);
  otherwise the path goes on to tool execution (\<open>"tools"\<close>). The library reads the tool
  calls under the guard \<open>hasattr\<close>, and raises a \<open>ValueError\<close> on a state without
  messages.
\<close>

definition tools_condition :: "graph_state \<Rightarrow> error + string" where
  "tools_condition state =
     (if messages state = [] then Inl (ValueError ''No messages found in input state to tool_edge'')
      else if tool_calls (last (messages state)) \<noteq> [] then Inr ''tools''
      else Inr END)"

text \<open>\<open>PrimaryAssistant.route_assistant\<close>; \<open>name\<close> is \<open>self.name\<close>.\<close>

definition route_assistant :: "string \<Rightarrow> graph_state \<Rightarrow> error + string" where
  "route_assistant name state =
     (case tools_condition state of
        Inl e \<Rightarrow> Inl e
      | Inr route \<Rightarrow>
          if route = END then Inr END
          else if messages state = [] then Inl IndexError
          else
            case attr_tool_calls (last (messages state)) of
              Inl e \<Rightarrow> Inl e
            | Inr tcs \<Rightarrow>
                if tcs \<noteq> [] then
                  if tc_name (hd tcs) = ''ToArchitectAssistant'' then Inr ''enter_architect_assistant''
                  else if tc_name (hd tcs) = ''ToCoderAssistant'' then Inr ''enter_coder_assistant''
                  else if tc_name (hd tcs) = ''ToTesterAssistant'' then Inr ''enter_tester_assistant''
                  else Inr (name @ ''_tools'')
                else Inl (ValueError ''Invalid route''))"

text \<open>\<open>SecondaryAssistant.route_assistant\<close>.\<close>

definition secondary_route_assistant :: "string \<Rightarrow> graph_state \<Rightarrow> error + string" where
  "secondary_route_assistant name state =
     (case tools_condition state of
        Inl e \<Rightarrow> Inl e
      | Inr route \<Rightarrow>
          if route = END then Inr END
          else if messages state = [] then Inl IndexError
          else
            case attr_tool_calls (last (messages state)) of
              Inl e \<Rightarrow> Inl e
            | Inr tcs \<Rightarrow>
                let did_cancel = list_ex (\<lambda>tc. tc_name tc = ''CompleteOrEscalate'') tcs
                in if did_cancel then Inr ''leave_skill'' else Inr (name @ ''_tools''))"

text \<open>
  The routing of the coordinator as the specification words it: no tool calls, the
  terminal marker; a first tool call naming a handoff, the matching entry node; any other
  first tool call, the coordinator's own tool node.
\<close>

definition coordinator_route_spec :: "string \<Rightarrow> message \<Rightarrow> string" where
  "coordinator_route_spec name msg =
     (case tool_calls msg of
        [] \<Rightarrow> END
      | tc # _ \<Rightarrow>
          (case map_of
                  [(''ToArchitectAssistant'', ''enter_architect_assistant''),
                   (''ToCoderAssistant'', ''enter_coder_assistant''),
                   (''ToTesterAssistant'', ''enter_tester_assistant'')] (tc_name tc) of
             Some target \<Rightarrow> target
           | None \<Rightarrow> name @ ''_tools''))"




section \<open>The graph (\<open>graph.py\<close>)\<close>

text \<open>
  The builder of \<open>define_workflow\<close> records nodes, edges and conditional edges. A
  conditional edge keeps its source node, its router and the list of targets declared
  for it (absent for the edge from \<open>START\<close>). A router is a bound method; it is kept as
  the method and the name of the assistant it belongs to.
\<close>

datatype router = PrimaryRouter string | SecondaryRouter string | WorkflowRouter

fun run_router :: "router \<Rightarrow> graph_state \<Rightarrow> error + string" where
  "run_router (PrimaryRouter name) state = route_assistant name state"
| "run_router (SecondaryRouter name) state = secondary_route_assistant name state"
| "run_router WorkflowRouter state = Inr (route_to_workflow state)"

record state_graph =
  nodes :: "string list"
  edges :: "(string \<times> string) list"
  branches :: "(string \<times> router \<times> string list option) list"

definition add_node :: "string \<Rightarrow> state_graph \<Rightarrow> state_graph" where
  "add_node n g = g\<lparr>nodes := nodes g @ [n]\<rparr>"

definition add_edge :: "string \<Rightarrow> string \<Rightarrow> state_graph \<Rightarrow> state_graph" where
  "add_edge a b g = g\<lparr>edges := edges g @ [(a, b)]\<rparr>"

definition add_conditional_edges ::
  "string \<Rightarrow> router \<Rightarrow> string list option \<Rightarrow> state_graph \<Rightarrow> state_graph"
where
  "add_conditional_edges src r targets g = g\<lparr>branches := branches g @ [(src, r, targets)]\<rparr>"

text \<open>The body of the loop over the secondary assistants, for the assistant named \<open>name\<close>.\<close>

definition add_secondary :: "string \<Rightarrow> state_graph \<Rightarrow> state_graph" where
  "add_secondary name g =
     (let g = add_node (''enter_'' @ name) g;
          g = add_node name g;
          g = add_node (name @ ''_tools'') g;
          g = add_edge (''enter_'' @ name) name g;
          g = add_edge (name @ ''_tools'') name g
      in add_conditional_edges name (SecondaryRouter name)
           (Some [name @ ''_tools'', ''leave_skill'', END]) g)"

definition secondary_assistants :: "string list" where
  "secondary_assistants = [''architect_assistant'', ''coder_assistant'', ''tester_assistant'']"

definition define_workflow :: state_graph where
  "define_workflow =
     (let g = fold add_secondary secondary_assistants \<lparr>nodes = [], edges = [], branches = []\<rparr>;
          g = add_node ''primary_assistant'' g;
          g = add_node ''primary_assistant_tools'' g;
          g = add_node ''leave_skill'' g;
          g = add_conditional_edges ''primary_assistant'' (PrimaryRouter ''primary_assistant'')
                (Some [''enter_device_assistant'', ''enter_telco_contract_assistant'',
                       ''primary_assistant_tools'', END]) g;
          g = add_edge ''primary_assistant_tools'' ''primary_assistant'' g;
          g = add_edge ''leave_skill'' ''primary_assistant'' g
      in add_conditional_edges START WorkflowRouter None g)"

text \<open>The targets declared for the conditional edge leaving a node, if it has one.\<close>

definition declared_targets :: "state_graph \<Rightarrow> string \<Rightarrow> string list option" where
  "declared_targets g src =
     (case map_of (branches g) src of None \<Rightarrow> None | Some (r, targets) \<Rightarrow> targets)"


section \<open>Example states\<close>

text \<open>
  A specialised agent that escalates, the same on an empty dialog stack, an agent that
  answers in plain text, a coordinator
  that hands off to the architect, and a coordinator that calls two ordinary tools.
\<close>

definition escalating_state :: graph_state where
  "escalating_state =
     \<lparr>messages =
        [human_message ''build me a REST API'',
         ai_message \<lparr>reply_content = Text [],
                     reply_tool_calls =
                       [\<lparr>tc_id = ''call_7'', tc_name = ''CompleteOrEscalate'', tc_args = []\<rparr>]\<rparr>],
      dialog_state = [''coder_assistant'']\<rparr>"

definition escalating_on_empty_state :: graph_state where
  "escalating_on_empty_state =
     \<lparr>messages =
        [human_message ''build me a REST API'',
         ai_message \<lparr>reply_content = Text [],
                     reply_tool_calls =
                       [\<lparr>tc_id = ''call_7'', tc_name = ''CompleteOrEscalate'', tc_args = []\<rparr>]\<rparr>],
      dialog_state = []\<rparr>"

definition answered_state :: graph_state where
  "answered_state =
     \<lparr>messages =
        [human_message ''build me a REST API'',
         ai_message \<lparr>reply_content = Text ''Done.'', reply_tool_calls = []\<rparr>],
      dialog_state = [''coder_assistant'']\<rparr>"

definition handoff_state :: graph_state where
  "handoff_state =
     \<lparr>messages =
        [human_message ''build me a REST API'',
         ai_message \<lparr>reply_content = Text [],
                     reply_tool_calls =
                       [\<lparr>tc_id = ''call_1'', tc_name = ''ToArchitectAssistant'', tc_args = []\<rparr>]\<rparr>],
      dialog_state = []\<rparr>"

definition two_calls_state :: graph_state where
  "two_calls_state =
     \<lparr>messages =
        [human_message ''build me a REST API'',
         ai_message \<lparr>reply_content = Text [],
                     reply_tool_calls =
                       [\<lparr>tc_id = ''call_1'', tc_name = ''write_file'', tc_args = []\<rparr>,
                        \<lparr>tc_id = ''call_2'', tc_name = ''run_tests'', tc_args = []\<rparr>]\<rparr>],
      dialog_state = []\<rparr>"


section \<open>Reading the tool calls of a message\<close>

lemma role_simps [simp]:
  "role (HumanMessage c) = User"
  "role (AIMessage c tcs) = Assistant"
  "role (ToolMessage c tid) = Tool"
  by (simp_all add: role_def)

lemma content_simps [simp]:
  "content (HumanMessage c) = c"
  "content (AIMessage c tcs) = c"
  "content (ToolMessage c tid) = c"
  by (simp_all add: content_def)

lemma attr_tool_calls_assistant:
  "role m = Assistant \<Longrightarrow> attr_tool_calls m = Inr (tool_calls m)"
  by (cases m) simp_all

lemma attr_tool_calls_present:
  "tool_calls m \<noteq> [] \<Longrightarrow> attr_tool_calls m = Inr (tool_calls m)"
  by (cases m) simp_all


section \<open>Properties of the dialog-stack reducer\<close>

lemma update_dialog_stack_simps:
  "update_dialog_stack left None = left"
  "update_dialog_stack left (Some ''pop'') = butlast left"
  "r \<noteq> ''pop'' \<Longrightarrow> update_dialog_stack left (Some r) = left @ [r]"
  by (simp_all add: update_dialog_stack_def)

text \<open>
  Claim C7, as amended. Pushing a value \<open>x\<close> and then popping gives back the stack the
  push started from, for every stack and every value \<open>x\<close> other than the sentinel
  \<open>"pop"\<close>. The sentinel itself cannot be pushed: the reducer reads it as a pop, so
  "push \<open>"pop"\<close>, then pop" removes up to two entries.
\<close>

theorem push_then_pop_identity:
  "x \<noteq> ''pop'' \<Longrightarrow> update_dialog_stack (update_dialog_stack s (Some x)) (Some ''pop'') = s"
  by (simp add: update_dialog_stack_def)

theorem push_then_pop_identity_witness:
  "''coder_assistant'' \<noteq> ''pop'' \<and>
   update_dialog_stack (update_dialog_stack [''architect_assistant''] (Some ''coder_assistant''))
     (Some ''pop'') = [''architect_assistant'']"
  using push_then_pop_identity [of "''coder_assistant''" "[''architect_assistant'']"] by simp

theorem push_sentinel_then_pop_counterexample:
  "update_dialog_stack (update_dialog_stack [''coder_assistant''] (Some ''pop'')) (Some ''pop'')
     \<noteq> [''coder_assistant'']"
  by (simp add: update_dialog_stack_def)


section \<open>Properties of the exit handler\<close>

lemma pop_dialog_state_result:
  "messages st \<noteq> [] \<Longrightarrow> role (last (messages st)) = Assistant \<Longrightarrow>
   pop_dialog_state st =
     Inr \<lparr>d_messages =
            (if tool_calls (last (messages st)) \<noteq> []
             then [tool_message resume_text (tc_id (hd (tool_calls (last (messages st)))))]
             else []),
          d_dialog_state = Some ''pop''\<rparr>"
  by (simp add: pop_dialog_state_def attr_tool_calls_assistant Let_def)

text \<open>
  Without an assistant message at the end of the log the exit handler raises: on an empty
  log, and on a last message that has no attribute \<open>tool_calls\<close>.
\<close>

lemma pop_dialog_state_raises:
  "pop_dialog_state \<lparr>messages = [], dialog_state = s\<rparr> = Inl IndexError"
  "pop_dialog_state \<lparr>messages = ms @ [HumanMessage c], dialog_state = s\<rparr> = Inl AttributeError"
  "pop_dialog_state \<lparr>messages = ms @ [ToolMessage c tid], dialog_state = s\<rparr> = Inl AttributeError"
  by (simp_all add: pop_dialog_state_def)

text \<open>
  Claim C10. The reducer has no failing branch: a pop of the empty stack is the empty
  stack. So the node \<open>leave_skill\<close>, run on a state with an empty dialog stack whose
  last message is the assistant message that triggered it, returns a state whose stack
  is still empty, and the graph goes on along its edge from \<open>leave_skill\<close> to
  \<open>primary_assistant\<close>.
\<close>

theorem pop_on_empty_stack_is_noop:
  "update_dialog_stack [] (Some ''pop'') = [] \<and>
   (messages st \<noteq> [] \<and> role (last (messages st)) = Assistant \<and> dialog_state st = [] \<longrightarrow>
      (\<exists>st'. run_node pop_dialog_state st = Inr st' \<and> dialog_state st' = [])) \<and>
   (''leave_skill'', ''primary_assistant'') \<in> set (edges define_workflow)"
proof (intro conjI impI)
  show "update_dialog_stack [] (Some ''pop'') = []"
    by (simp add: update_dialog_stack_def)
next
  assume "messages st \<noteq> [] \<and> role (last (messages st)) = Assistant \<and> dialog_state st = []"
  then show "\<exists>st'. run_node pop_dialog_state st = Inr st' \<and> dialog_state st' = []"
    by (simp add: run_node_def pop_dialog_state_result apply_delta_def update_dialog_stack_def)
next
  show "(''leave_skill'', ''primary_assistant'') \<in> set (edges define_workflow)"
    by (simp add: define_workflow_def add_edge_def add_node_def add_conditional_edges_def Let_def)
qed

theorem pop_on_empty_stack_is_noop_witness:
  "messages escalating_on_empty_state \<noteq> [] \<and>
   role (last (messages escalating_on_empty_state)) = Assistant \<and>
   dialog_state escalating_on_empty_state = [] \<and>
   (\<exists>st'. run_node pop_dialog_state escalating_on_empty_state = Inr st' \<and> dialog_state st' = [])"
  using pop_on_empty_stack_is_noop [of escalating_on_empty_state]
  by (simp add: escalating_on_empty_state_def ai_message_def)

text \<open>
  Claim C8. On a state whose last message is an assistant message (the triggering
  message of the specialised agent), the exit handler returns the update
  \<open>"pop"\<close> for the dialog stack, so the merged stack is the old one without its last
  element (tail removal). When the triggering message has a tool call, the handler adds
  exactly one tool message, the announcement that the primary assistant resumes,
  correlated to the id of the first tool call; when it has none, the handler adds no
  message.
\<close>

theorem leave_skill_pops_and_announces:
  assumes "messages st \<noteq> []" and "role (last (messages st)) = Assistant"
  shows "\<exists>d. pop_dialog_state st = Inr d \<and>
           d_dialog_state d = Some ''pop'' \<and>
           dialog_state (apply_delta st d) = butlast (dialog_state st) \<and>
           (dialog_state st \<noteq> [] \<longrightarrow>
              dialog_state st = dialog_state (apply_delta st d) @ [last (dialog_state st)]) \<and>
           (tool_calls (last (messages st)) \<noteq> [] \<longrightarrow>
              d_messages d = [tool_message resume_text (tc_id (hd (tool_calls (last (messages st)))))]) \<and>
           (tool_calls (last (messages st)) = [] \<longrightarrow> d_messages d = []) \<and>
           messages (apply_delta st d) = messages st @ d_messages d"
  using assms
  by (simp add: pop_dialog_state_result apply_delta_def update_dialog_stack_def add_messages_def)

theorem leave_skill_pops_and_announces_witness:
  "messages escalating_state \<noteq> [] \<and> role (last (messages escalating_state)) = Assistant \<and>
   messages answered_state \<noteq> [] \<and> role (last (messages answered_state)) = Assistant \<and>
   (\<exists>d. pop_dialog_state escalating_state = Inr d \<and>
        d_messages d = [tool_message resume_text ''call_7''] \<and>
        dialog_state (apply_delta escalating_state d) = [] \<and>
        dialog_state escalating_state = dialog_state (apply_delta escalating_state d) @ [''coder_assistant'']) \<and>
   (\<exists>d. pop_dialog_state answered_state = Inr d \<and> d_messages d = [] \<and>
        dialog_state (apply_delta answered_state d) = [])"
  using leave_skill_pops_and_announces [of escalating_state]
    leave_skill_pops_and_announces [of answered_state]
  by (auto simp add: escalating_state_def answered_state_def ai_message_def)


section \<open>Properties of the tool-error fallback\<close>

text \<open>
  When the last message has no attribute \<open>tool_calls\<close> the fallback raises as well, and
  the node fails with the exception of the tool node.
\<close>

lemma fallback_raises_without_attribute:
  "handle_tool_error \<lparr>messages = ms @ [HumanMessage c], dialog_state = s, error = e\<rparr>
     = Inl AttributeError"
  "tool_node \<lparr>messages = ms @ [HumanMessage c], dialog_state = s\<rparr> = Inl x \<Longrightarrow>
   create_tool_node_with_fallback tool_node \<lparr>messages = ms @ [HumanMessage c], dialog_state = s\<rparr>
     = Inl x"
  by (simp_all add: handle_tool_error_def create_tool_node_with_fallback_def with_fallbacks_def)

text \<open>
  Claim C5. When the tool node raises on a state whose last message is an assistant
  message (the triggering message, with its tool calls), the node with fallback does not
  fail: it returns one tool message for each tool call of the
  triggering message, in the order of the calls, each carrying the id of its call, and
  each with the content \<open>"Error: "\<close>, the \<open>repr\<close> of the exception, a line break and
  \<open>" please fix your mistakes."\<close>.
\<close>

theorem tool_failure_answers_every_call:
  assumes "messages st \<noteq> []" and "role (last (messages st)) = Assistant"
    and "tool_node st = Inl e"
  shows "\<exists>d. create_tool_node_with_fallback tool_node st = Inr d \<and>
           d_messages d =
             map (\<lambda>tc. tool_message (''Error: '' @ py_repr (Some e) @ [CHR 0x0A] @ '' please fix your mistakes.'')
                        (tc_id tc))
               (tool_calls (last (messages st))) \<and>
           length (d_messages d) = length (tool_calls (last (messages st))) \<and>
           map tool_call_id (d_messages d) = map (\<lambda>tc. Some (tc_id tc)) (tool_calls (last (messages st))) \<and>
           d_dialog_state d = None"
  using assms
  by (simp add: create_tool_node_with_fallback_def with_fallbacks_def handle_tool_error_def
      attr_tool_calls_assistant error_text_def tool_message_def comp_def)

theorem tool_failure_answers_every_call_witness:
  "messages two_calls_state \<noteq> [] \<and> role (last (messages two_calls_state)) = Assistant \<and>
   tool_calls (last (messages two_calls_state)) \<noteq> [] \<and>
   (\<exists>d. create_tool_node_with_fallback (\<lambda>st. Inl (Exn ''KeyError(42)'')) two_calls_state = Inr d \<and>
        d_messages d =
          [tool_message (''Error: KeyError(42)'' @ [CHR 0x0A] @ '' please fix your mistakes.'') ''call_1'',
           tool_message (''Error: KeyError(42)'' @ [CHR 0x0A] @ '' please fix your mistakes.'') ''call_2''])"
  using tool_failure_answers_every_call
    [of two_calls_state "\<lambda>st. Inl (Exn ''KeyError(42)'')" "Exn ''KeyError(42)''"]
  by (auto simp add: two_calls_state_def ai_message_def)


section \<open>Properties of the coordinator router\<close>

lemma tools_condition_nonempty:
  "messages st \<noteq> [] \<Longrightarrow>
   tools_condition st = Inr (if tool_calls (last (messages st)) \<noteq> [] then ''tools'' else END)"
  by (simp add: tools_condition_def)

lemma tools_not_END: "''tools'' \<noteq> END"
  by (simp add: END_def)

text \<open>
  Claim C2. On every state that has a last message, the coordinator router returns a
  target and never fails, and the target is the one the specification words: the terminal
  marker when the last message has no tool calls, the entry node of the architect, coder
  or tester when the first tool call names the matching handoff, and the coordinator's own
  tool node \<open>name_tools\<close> otherwise.
\<close>

theorem coordinator_router_total:
  "messages st \<noteq> [] \<Longrightarrow>
   route_assistant name st = Inr (coordinator_route_spec name (last (messages st)))"
  by (cases "tool_calls (last (messages st))")
     (simp_all add: route_assistant_def tools_condition_nonempty tools_not_END
        attr_tool_calls_present coordinator_route_spec_def Let_def)

theorem coordinator_router_total_witness:
  "messages handoff_state \<noteq> [] \<and>
   route_assistant ''primary_assistant'' handoff_state = Inr ''enter_architect_assistant'' \<and>
   messages answered_state \<noteq> [] \<and>
   route_assistant ''primary_assistant'' answered_state = Inr ''__end__'' \<and>
   messages two_calls_state \<noteq> [] \<and>
   route_assistant ''primary_assistant'' two_calls_state = Inr ''primary_assistant_tools''"
  using coordinator_router_total [of handoff_state "''primary_assistant''"]
    coordinator_router_total [of answered_state "''primary_assistant''"]
    coordinator_router_total [of two_calls_state "''primary_assistant''"]
  by (simp add: handoff_state_def answered_state_def two_calls_state_def coordinator_route_spec_def
      ai_message_def END_def)





section \<open>The conditional edges of the graph\<close>

lemma define_workflow_eval:
  "define_workflow =
    \<lparr>nodes = [''enter_architect_assistant'', ''architect_assistant'', ''architect_assistant_tools'',
              ''enter_coder_assistant'', ''coder_assistant'', ''coder_assistant_tools'',
              ''enter_tester_assistant'', ''tester_assistant'', ''tester_assistant_tools'',
              ''primary_assistant'', ''primary_assistant_tools'', ''leave_skill''],
     edges = [(''enter_architect_assistant'', ''architect_assistant''),
              (''architect_assistant_tools'', ''architect_assistant''),
              (''enter_coder_assistant'', ''coder_assistant''),
              (''coder_assistant_tools'', ''coder_assistant''),
              (''enter_tester_assistant'', ''tester_assistant''),
              (''tester_assistant_tools'', ''tester_assistant''),
              (''primary_assistant_tools'', ''primary_assistant''),
              (''leave_skill'', ''primary_assistant'')],
     branches = [(''architect_assistant'', SecondaryRouter ''architect_assistant'',
                    Some [''architect_assistant_tools'', ''leave_skill'', END]),
                 (''coder_assistant'', SecondaryRouter ''coder_assistant'',
                    Some [''coder_assistant_tools'', ''leave_skill'', END]),
                 (''tester_assistant'', SecondaryRouter ''tester_assistant'',
                    Some [''tester_assistant_tools'', ''leave_skill'', END]),
                 (''primary_assistant'', PrimaryRouter ''primary_assistant'',
                    Some [''enter_device_assistant'', ''enter_telco_contract_assistant'',
                          ''primary_assistant_tools'', END]),
                 (START, WorkflowRouter, None)]\<rparr>"
  by (simp add: define_workflow_def secondary_assistants_def add_secondary_def add_node_def
      add_edge_def add_conditional_edges_def Let_def)

text \<open>
  The sibling path: for each specialised agent, every target its router returns is among
  the targets declared for its conditional edge.
\<close>

lemma secondary_route_range:
  "secondary_route_assistant name st = Inr t \<Longrightarrow>
   t = END \<or> t = ''leave_skill'' \<or> t = name @ ''_tools''"
  by (auto simp add: secondary_route_assistant_def tools_condition_def Let_def
      split: if_splits sum.splits)

lemma declared_targets_secondary:
  assumes "name \<in> set secondary_assistants"
  shows "declared_targets define_workflow name = Some [name @ ''_tools'', ''leave_skill'', END]"
proof -
  from assms consider "name = ''architect_assistant''" | "name = ''coder_assistant''"
    | "name = ''tester_assistant''"
    by (auto simp add: secondary_assistants_def)
  then show ?thesis
  proof cases
    case 1 then show ?thesis by (simp add: define_workflow_eval declared_targets_def)
  next
    case 2 then show ?thesis by (simp add: define_workflow_eval declared_targets_def)
  next
    case 3 then show ?thesis by (simp add: define_workflow_eval declared_targets_def)
  qed
qed

lemma secondary_targets_declared:
  assumes "name \<in> set secondary_assistants" and "secondary_route_assistant name st = Inr t"
  shows "\<exists>ts. declared_targets define_workflow name = Some ts \<and> t \<in> set ts"
  using declared_targets_secondary [OF assms(1)] secondary_route_range [OF assms(2)] by auto

text \<open>
  Claim C1, evaluated on the code. The targets declared for the conditional edge of
  \<open>primary_assistant\<close> are \<open>enter_device_assistant\<close>, \<open>enter_telco_contract_assistant\<close>,
  \<open>primary_assistant_tools\<close> and the terminal marker. On a last message that hands off
  to the architect the coordinator router returns \<open>enter_architect_assistant\<close>, a node of
  the graph that is not among the declared targets, while the two declared entry targets
  are no nodes of the graph.
\<close>

theorem handoff_target_not_declared:
  "declared_targets define_workflow ''primary_assistant'' =
     Some [''enter_device_assistant'', ''enter_telco_contract_assistant'',
           ''primary_assistant_tools'', END] \<and>
   route_assistant ''primary_assistant''
     \<lparr>messages = [AIMessage (Text []) [\<lparr>tc_id = ''call_1'', tc_name = ''ToArchitectAssistant'', tc_args = []\<rparr>]],
      dialog_state = []\<rparr> = Inr ''enter_architect_assistant'' \<and>
   ''enter_architect_assistant'' \<notin>
     set [''enter_device_assistant'', ''enter_telco_contract_assistant'',
          ''primary_assistant_tools'', END] \<and>
   ''enter_architect_assistant'' \<in> set (nodes define_workflow) \<and>
   ''enter_device_assistant'' \<notin> set (nodes define_workflow) \<and>
   ''enter_telco_contract_assistant'' \<notin> set (nodes define_workflow)"
  by (simp add: define_workflow_eval declared_targets_def route_assistant_def tools_condition_def
      tools_not_END END_def START_def Let_def)


section \<open>Runs of the dialog-stack reducer\<close>

lemma apply_updates_Nil [simp]: "apply_updates s [] = s"
  by (simp add: apply_updates_def)

lemma apply_updates_Cons [simp]:
  "apply_updates s (r # ops) = apply_updates (update_dialog_stack s r) ops"
  by (simp add: apply_updates_def)

lemma apply_updates_append:
  "apply_updates s (ops @ ops') = apply_updates (apply_updates s ops) ops'"
  by (simp add: apply_updates_def)

lemma pushes_Cons:
  "pushes (r # ops) = (if r \<noteq> None \<and> r \<noteq> Some ''pop'' then Suc (pushes ops) else pushes ops)"
  by (simp add: pushes_def)

lemma pops_Cons:
  "pops (r # ops) = (if r = Some ''pop'' then Suc (pops ops) else pops ops)"
  by (simp add: pops_def)

lemma level_height:
  "level (length s) ops = Some d \<Longrightarrow>
   length (apply_updates s ops) = d \<and> d + pops ops = length s + pushes ops"
proof (induction ops arbitrary: s)
  case Nil
  then show ?case by (simp add: pushes_def pops_def)
next
  case (Cons r ops)
  show ?case
  proof (cases r)
    case None
    with Cons show ?thesis
      by (simp add: update_dialog_stack_simps pushes_Cons pops_Cons)
  next
    case (Some x)
    show ?thesis
    proof (cases "x = ''pop''")
      case True
      with Some Cons.prems have ne: "s \<noteq> []" and l: "level (length (butlast s)) ops = Some d"
        by (auto split: if_splits)
      from Cons.IH [OF l] ne Some True show ?thesis
        by (simp add: update_dialog_stack_simps pushes_Cons pops_Cons)
    next
      case False
      with Some Cons.prems have l: "level (length (s @ [x])) ops = Some d"
        by simp
      from Cons.IH [OF l] Some False show ?thesis
        by (simp add: update_dialog_stack_simps pushes_Cons pops_Cons)
    qed
  qed
qed

lemma level_frame:
  "level (length u) ops = Some d \<Longrightarrow> apply_updates (t @ u) ops = t @ apply_updates u ops"
proof (induction ops arbitrary: u)
  case Nil
  then show ?case by simp
next
  case (Cons r ops)
  show ?case
  proof (cases r)
    case None
    with Cons show ?thesis by (simp add: update_dialog_stack_simps)
  next
    case (Some x)
    show ?thesis
    proof (cases "x = ''pop''")
      case True
      with Some Cons.prems have ne: "u \<noteq> []" and l: "level (length (butlast u)) ops = Some d"
        by (auto split: if_splits)
      from Cons.IH [OF l] ne Some True show ?thesis
        by (simp add: update_dialog_stack_simps butlast_append)
    next
      case False
      with Some Cons.prems have l: "level (length (u @ [x])) ops = Some d"
        by simp
      from Cons.IH [OF l] Some False show ?thesis
        by (simp add: update_dialog_stack_simps)
    qed
  qed
qed

lemma balanced_is_identity:
  assumes "level 0 ops = Some 0"
  shows "apply_updates t ops = t"
proof -
  have l: "level (length ([]::string list)) ops = Some 0" using assms by simp
  from level_height [OF l] have "apply_updates [] ops = []" by simp
  with level_frame [OF l, of t] show ?thesis by simp
qed

lemma top_after_push:
  assumes "x \<noteq> ''pop''" and "level 0 post = Some 0"
  shows "last (apply_updates s (pre @ Some x # post)) = x"
  using assms
  by (simp add: apply_updates_append update_dialog_stack_simps balanced_is_identity)

lemma update_tail_only:
  "update_dialog_stack l r = l \<or> update_dialog_stack l r = butlast l \<or>
   (\<exists>x. r = Some x \<and> update_dialog_stack l r = l @ [x])"
  by (cases r) (auto simp add: update_dialog_stack_def)

lemma pushed_snoc:
  "pushed (ops @ [r]) = pushed ops @ (case r of None \<Rightarrow> [] | Some x \<Rightarrow> if x = ''pop'' then [] else [x])"
  by (simp add: pushed_def)

lemma run_keeps_order:
  "\<exists>k ys. apply_updates s ops = take k s @ ys \<and> subseq ys (pushed ops)"
proof (induction ops rule: rev_induct)
  case Nil
  have "apply_updates s [] = take (length s) s @ [] \<and> subseq [] (pushed [])" by simp
  then show ?case by blast
next
  case (snoc r ops)
  then obtain k ys where eq: "apply_updates s ops = take k s @ ys" and sub: "subseq ys (pushed ops)"
    by blast
  have step: "apply_updates s (ops @ [r]) = update_dialog_stack (take k s @ ys) r"
    by (simp add: apply_updates_append eq)
  show ?case
  proof (cases r)
    case None
    with step sub have "apply_updates s (ops @ [r]) = take k s @ ys \<and> subseq ys (pushed (ops @ [r]))"
      by (simp add: update_dialog_stack_simps pushed_snoc)
    then show ?thesis by blast
  next
    case (Some x)
    show ?thesis
    proof (cases "x = ''pop''")
      case True
      show ?thesis
      proof (cases "ys = []")
        case True
        with step Some \<open>x = ''pop''\<close>
        have "apply_updates s (ops @ [r]) = take (min k (length s) - 1) s @ [] \<and>
              subseq [] (pushed (ops @ [r]))"
          by (simp add: update_dialog_stack_simps butlast_conv_take min_def)
        then show ?thesis by blast
      next
        case False
        with step Some \<open>x = ''pop''\<close> sub
        have "apply_updates s (ops @ [r]) = take k s @ butlast ys \<and>
              subseq (butlast ys) (pushed (ops @ [r]))"
          by (auto simp add: update_dialog_stack_simps butlast_append pushed_snoc
              intro: subseq_order.trans [OF sublist_imp_subseq [OF prefix_imp_sublist [OF prefixeq_butlast]]])
        then show ?thesis by blast
      qed
    next
      case False
      with step Some sub
      have "apply_updates s (ops @ [r]) = take k s @ (ys @ [x]) \<and>
            subseq (ys @ [x]) (pushed (ops @ [r]))"
        by (simp add: update_dialog_stack_simps pushed_snoc list_emb_append_mono)
      then show ?thesis by blast
    qed
  qed
qed

text \<open>
  Claim C6, as amended. Take a starting stack and a sequence of updates in which no pop
  meets the empty stack, with \<open>N\<close> pushes and \<open>M\<close> pops. Then the resulting stack has
  exactly \<open>N - M\<close> more entries than the starting one. Whenever the sequence pushes \<open>x\<close>
  and everything pushed after \<open>x\<close> is popped again, the top of the result is \<open>x\<close>. The
  entries are never reordered: the result is a prefix of the starting stack followed by
  pushed values in the order of their pushes, and one application of the reducer leaves
  the stack as it is, removes its last entry or appends one entry.
\<close>

theorem reducer_run_height_top_order:
  assumes "level (length s) ops = Some d"
  shows "int (length (apply_updates s ops)) = int (length s) + int (pushes ops) - int (pops ops) \<and>
         (ops = pre @ Some x # post \<and> x \<noteq> ''pop'' \<and> level 0 post = Some 0
            \<longrightarrow> last (apply_updates s ops) = x) \<and>
         (\<exists>k ys. apply_updates s ops = take k s @ ys \<and> subseq ys (pushed ops)) \<and>
         (update_dialog_stack l r = l \<or> update_dialog_stack l r = butlast l \<or>
            (\<exists>y. r = Some y \<and> update_dialog_stack l r = l @ [y]))"
proof (intro conjI impI)
  from level_height [OF assms]
  show "int (length (apply_updates s ops)) = int (length s) + int (pushes ops) - int (pops ops)"
    by linarith
next
  assume "ops = pre @ Some x # post \<and> x \<noteq> ''pop'' \<and> level 0 post = Some 0"
  then show "last (apply_updates s ops) = x"
    by (simp add: top_after_push)
next
  show "\<exists>k ys. apply_updates s ops = take k s @ ys \<and> subseq ys (pushed ops)"
    by (rule run_keeps_order)
next
  show "update_dialog_stack l r = l \<or> update_dialog_stack l r = butlast l \<or>
          (\<exists>y. r = Some y \<and> update_dialog_stack l r = l @ [y])"
    by (rule update_tail_only)
qed

theorem reducer_run_height_top_order_witness:
  "level (length [''architect_assistant''])
     [Some ''coder_assistant'', None, Some ''tester_assistant'', Some ''pop''] = Some 2 \<and>
   apply_updates [''architect_assistant'']
     [Some ''coder_assistant'', None, Some ''tester_assistant'', Some ''pop'']
     = [''architect_assistant'', ''coder_assistant''] \<and>
   pushes [Some ''coder_assistant'', None, Some ''tester_assistant'', Some ''pop''] = 2 \<and>
   pops [Some ''coder_assistant'', None, Some ''tester_assistant'', Some ''pop''] = 1 \<and>
   level 0 [None, Some ''tester_assistant'', Some ''pop''] = Some 0 \<and>
   int (length (apply_updates [''architect_assistant'']
     [Some ''coder_assistant'', None, Some ''tester_assistant'', Some ''pop''])) = 1 + 2 - 1 \<and>
   last (apply_updates [''architect_assistant'']
     [Some ''coder_assistant'', None, Some ''tester_assistant'', Some ''pop'']) = ''coder_assistant''"
  using reducer_run_height_top_order
    [of "[''architect_assistant'']"
        "[Some ''coder_assistant'', None, Some ''tester_assistant'', Some ''pop'']" 2
        "[]" "''coder_assistant''" "[None, Some ''tester_assistant'', Some ''pop'']"]
  by (simp add: update_dialog_stack_def pushes_def pops_def)

theorem pop_before_push_counterexample:
  "pushes [Some ''pop'', Some ''coder_assistant''] = 1 \<and>
   pops [Some ''pop'', Some ''coder_assistant''] = 1 \<and>
   apply_updates [] [Some ''pop'', Some ''coder_assistant''] = [''coder_assistant''] \<and>
   length (apply_updates [] [Some ''pop'', Some ''coder_assistant''])
     \<noteq> length ([] :: string list) + (pushes [Some ''pop'', Some ''coder_assistant'']
          - pops [Some ''pop'', Some ''coder_assistant''])"
  by (simp add: update_dialog_stack_def pushes_def pops_def)



section \<open>Properties of the agent invoker\<close>

lemma nth_call_shift:
  "nth_call run m st (Suc n) =
   nth_call run (snd (run m st)) (st\<lparr>messages := messages st @ [directive]\<rparr>) n"
  by (induction n) (simp_all split: prod.splits)

lemma nth_reply_shift:
  "nth_reply run m st (Suc n) =
   nth_reply run (snd (run m st)) (st\<lparr>messages := messages st @ [directive]\<rparr>) n"
  unfolding nth_reply_def nth_call_shift ..

lemma nth_reply_0: "nth_reply run m st 0 = fst (run m st)"
  by (simp add: nth_reply_def)

lemma invoke_loop_retry:
  "retry_needed (fst (run m st)) \<Longrightarrow>
   invoke_loop run m st = invoke_loop run (snd (run m st)) (st\<lparr>messages := messages st @ [directive]\<rparr>)"
  by (cases "run m st") (simp add: invoke_loop.simps [of run m st])

lemma invoke_loop_accept:
  "\<not> retry_needed (fst (run m st)) \<Longrightarrow> invoke_loop run m st = Some (run m st)"
  by (cases "run m st") (simp add: invoke_loop.simps [of run m st])

lemma invoke_loop_first_accepted:
  "\<not> retry_needed (nth_reply run m st n) \<Longrightarrow> (\<forall>k<n. retry_needed (nth_reply run m st k)) \<Longrightarrow>
   invoke_loop run m st = Some (nth_reply run m st n, fst (nth_call run m st (Suc n)))"
proof (induction n arbitrary: m st)
  case 0
  then show ?case
    by (simp add: nth_reply_0 invoke_loop_accept split: prod.splits)
next
  case (Suc n)
  from Suc.prems(2) have first: "retry_needed (fst (run m st))"
    by (metis nth_reply_0 zero_less_Suc)
  let ?m = "snd (run m st)" and ?st = "st\<lparr>messages := messages st @ [directive]\<rparr>"
  have a: "\<not> retry_needed (nth_reply run ?m ?st n)"
    using Suc.prems(1) by (simp add: nth_reply_shift)
  have b: "\<forall>k<n. retry_needed (nth_reply run ?m ?st k)"
  proof (intro allI impI)
    fix k assume "k < n"
    then have "Suc k < Suc n" by simp
    with Suc.prems(2) have "retry_needed (nth_reply run m st (Suc k))" by blast
    then show "retry_needed (nth_reply run ?m ?st k)" by (simp add: nth_reply_shift)
  qed
  from Suc.IH [OF a b] show ?case
    by (simp only: invoke_loop_retry [of run m st, OF first] nth_reply_shift nth_call_shift [of run m st "Suc n"])
qed

lemma invoke_loop_Some_accepted:
  assumes "invoke_loop run m st = Some y"
  shows "\<exists>n. \<not> retry_needed (nth_reply run m st n)"
proof (rule invoke_loop.raw_induct
    [where P = "\<lambda>run m st y. \<exists>n. \<not> retry_needed (nth_reply run m st n)", OF _ assms])
  fix loop :: "'a runnable \<Rightarrow> 'a \<Rightarrow> graph_state \<Rightarrow> (reply \<times> 'a) option"
    and run :: "'a runnable" and m st y
  assume IH: "\<And>run m st y. loop run m st = Some y \<Longrightarrow> \<exists>n. \<not> retry_needed (nth_reply run m st n)"
    and eq: "(case run m st of
               (result, m') \<Rightarrow>
                 if retry_needed result
                 then loop run m' (st\<lparr>messages := messages st @ [directive]\<rparr>)
                 else Some (result, m')) = Some y"
  show "\<exists>n. \<not> retry_needed (nth_reply run m st n)"
  proof (cases "retry_needed (fst (run m st))")
    case True
    with eq have step: "loop run (snd (run m st)) (st\<lparr>messages := messages st @ [directive]\<rparr>) = Some y"
      by (simp split: prod.splits)
    from IH [OF step] obtain n where
      "\<not> retry_needed (nth_reply run (snd (run m st)) (st\<lparr>messages := messages st @ [directive]\<rparr>) n)"
      by blast
    then have "\<not> retry_needed (nth_reply run m st (Suc n))" by (simp add: nth_reply_shift)
    then show ?thesis by blast
  next
    case False
    then have "\<not> retry_needed (nth_reply run m st 0)" by (simp add: nth_reply_0)
    then show ?thesis by blast
  qed
qed

lemma invoke_loop_None_iff:
  "invoke_loop run m st = None \<longleftrightarrow> (\<forall>n. retry_needed (nth_reply run m st n))"
proof
  assume "invoke_loop run m st = None"
  show "\<forall>n. retry_needed (nth_reply run m st n)"
  proof (rule ccontr)
    assume "\<not> (\<forall>n. retry_needed (nth_reply run m st n))"
    then have ex: "\<exists>n. \<not> retry_needed (nth_reply run m st n)" by blast
    define n where "n = (LEAST n. \<not> retry_needed (nth_reply run m st n))"
    have a: "\<not> retry_needed (nth_reply run m st n)"
      unfolding n_def using ex by (rule LeastI_ex)
    have b: "\<forall>k<n. retry_needed (nth_reply run m st k)"
      unfolding n_def using not_less_Least by blast
    from invoke_loop_first_accepted [OF a b] \<open>invoke_loop run m st = None\<close> show False by simp
  qed
next
  assume all: "\<forall>n. retry_needed (nth_reply run m st n)"
  show "invoke_loop run m st = None"
  proof (cases "invoke_loop run m st")
    case None then show ?thesis .
  next
    case (Some y)
    from invoke_loop_Some_accepted [OF Some] all show ?thesis by blast
  qed
qed







text \<open>
  Claim C9. The retry loop has no bound. A model that answers every invocation with no
  tool calls and an empty content keeps the invoker from ever returning. The invoker
  returns if and only if some invocation of the run answers with a tool call or a
  non-empty content; and however many invocations \<open>n\<close> come first with an empty answer,
  the invoker goes through all of them and returns the answer of the next one.
\<close>

theorem retry_loop_unbounded:
  "((\<forall>m st. reply_tool_calls (fst (run m st)) = [] \<and> empty_content (reply_content (fst (run m st))))
      \<longrightarrow> assistant_call run m st = None) \<and>
   (assistant_call run m st \<noteq> None \<longleftrightarrow>
      (\<exists>n. reply_tool_calls (nth_reply run m st n) \<noteq> [] \<or>
           \<not> empty_content (reply_content (nth_reply run m st n)))) \<and>
   ((\<forall>k<n. retry_needed (nth_reply run m st k)) \<and> \<not> retry_needed (nth_reply run m st n) \<longrightarrow>
      assistant_call run m st =
        Some (\<lparr>d_messages = [ai_message (nth_reply run m st n)], d_dialog_state = None\<rparr>,
              fst (nth_call run m st (Suc n))))"
proof (intro conjI impI)
  assume "\<forall>m st. reply_tool_calls (fst (run m st)) = [] \<and> empty_content (reply_content (fst (run m st)))"
  then have "\<forall>n. retry_needed (nth_reply run m st n)"
    by (simp add: nth_reply_def retry_needed_def split: prod.splits)
  then have "invoke_loop run m st = None"
    by (simp add: invoke_loop_None_iff)
  then show "assistant_call run m st = None"
    by (simp add: assistant_call_def)
next
  have "assistant_call run m st \<noteq> None \<longleftrightarrow> invoke_loop run m st \<noteq> None"
    by (simp add: assistant_call_def split: option.splits)
  also have "\<dots> \<longleftrightarrow> (\<exists>n. \<not> retry_needed (nth_reply run m st n))"
    by (simp add: invoke_loop_None_iff)
  finally show "assistant_call run m st \<noteq> None \<longleftrightarrow>
      (\<exists>n. reply_tool_calls (nth_reply run m st n) \<noteq> [] \<or>
           \<not> empty_content (reply_content (nth_reply run m st n)))"
    by (simp add: retry_needed_def)
next
  assume "(\<forall>k<n. retry_needed (nth_reply run m st k)) \<and> \<not> retry_needed (nth_reply run m st n)"
  then have "invoke_loop run m st = Some (nth_reply run m st n, fst (nth_call run m st (Suc n)))"
    using invoke_loop_first_accepted [of run m st n] by blast
  then show "assistant_call run m st =
        Some (\<lparr>d_messages = [ai_message (nth_reply run m st n)], d_dialog_state = None\<rparr>,
              fst (nth_call run m st (Suc n)))"
    by (simp add: assistant_call_def)
qed

theorem retry_loop_unbounded_witness:
  "(\<forall>m st. reply_tool_calls (fst (silent_model m st)) = [] \<and>
           empty_content (reply_content (fst (silent_model m st)))) \<and>
   assistant_call silent_model 0 handoff_state = None \<and>
   retry_needed (nth_reply scripted_model 0 handoff_state 0) \<and>
   retry_needed (nth_reply scripted_model 0 handoff_state 1) \<and>
   \<not> retry_needed (nth_reply scripted_model 0 handoff_state 2) \<and>
   assistant_call scripted_model 0 handoff_state \<noteq> None"
  using retry_loop_unbounded [of silent_model 0 handoff_state 0]
    retry_loop_unbounded [of scripted_model 0 handoff_state 2]
  by (simp add: silent_model_def scripted_model_def empty_reply_def valid_reply_def
      retry_needed_def nth_reply_def eval_nat_numeral less_Suc_eq)

end
